theory Spec2Isabelle
  imports Complex_Main "HOL-Library.Word"
begin

section \<open>JavaScript values used by the form components\<close>

text \<open>
  A JavaScript string is a sequence of 16-bit code units; \<open>length\<close> counts code units,
  as the \<open>length\<close> property of a string does.
\<close>

type_synonym jschar = "16 word"
type_synonym jsstring = "jschar list"

definition ascii :: "string \<Rightarrow> jsstring" where
  "ascii s = map of_char s"

text \<open>
  \<open>String.prototype.trim\<close> removes WhiteSpace and LineTerminator code points from both
  ends: TAB, LF, VT, FF, CR, SP, NBSP, U+1680, U+2000..U+200A, U+2028, U+2029, U+202F,
  U+205F, U+3000 and U+FEFF. All of them are single code units.
\<close>

definition is_ws :: "jschar \<Rightarrow> bool" where
  "is_ws c \<longleftrightarrow>
     c = 0x9 \<or> c = 0xA \<or> c = 0xB \<or> c = 0xC \<or> c = 0xD \<or> c = 0x20 \<or> c = 0xA0 \<or>
     c = 0x1680 \<or> (0x2000 \<le> c \<and> c \<le> 0x200A) \<or> c = 0x2028 \<or> c = 0x2029 \<or>
     c = 0x202F \<or> c = 0x205F \<or> c = 0x3000 \<or> c = 0xFEFF"

definition trim :: "jsstring \<Rightarrow> jsstring" where
  "trim s = rev (dropWhile is_ws (rev (dropWhile is_ws s)))"

text \<open>
  Numbers: every finite double is a rational, so a Number is NaN, an infinity or a
  rational; the two zeros are one value (the code below only compares numbers, tests
  them for NaN and for truthiness, and both zeros behave alike there).
\<close>

datatype jsnum = NaN | NegInf | Fin rat | PosInf

fun num_lt :: "jsnum \<Rightarrow> jsnum \<Rightarrow> bool" where
  "num_lt NaN _ = False"
| "num_lt _ NaN = False"
| "num_lt NegInf y = (y \<noteq> NegInf)"
| "num_lt (Fin a) (Fin b) = (a < b)"
| "num_lt (Fin a) PosInf = True"
| "num_lt (Fin a) NegInf = False"
| "num_lt PosInf _ = False"

definition num_gt :: "jsnum \<Rightarrow> jsnum \<Rightarrow> bool" where
  "num_gt x y = num_lt y x"

definition isNaN :: "jsnum \<Rightarrow> bool" where
  "isNaN n \<longleftrightarrow> n = NaN"

text \<open>
  The values a field can hold are the primitive ones. Objects (arrays among them) as a
  field value are outside the model.
\<close>

datatype jsval = Undefined | Null | Boolean bool | Number jsnum | String jsstring

fun truthy :: "jsval \<Rightarrow> bool" where
  "truthy Undefined = False"
| "truthy Null = False"
| "truthy (Boolean b) = b"
| "truthy (Number n) = (n \<noteq> NaN \<and> n \<noteq> Fin 0)"
| "truthy (String s) = (s \<noteq> [])"

text \<open>
  What the JavaScript engine provides and the code calls: the regular-expression
  constructor, which throws a SyntaxError on a malformed pattern and otherwise gives a
  matcher (\<open>test\<close>); the numeric value of a string that is not blank; the decimal text
  of a number. They are parameters of the model.
\<close>

datatype js_error = SyntaxError | TypeError

record host =
  RegExp_new :: "jsstring \<Rightarrow> js_error + (jsstring \<Rightarrow> bool)"
  str_to_num :: "jsstring \<Rightarrow> jsnum"
  num_to_str :: "jsnum \<Rightarrow> jsstring"

text \<open>
  \<open>value.toString()\<close>. The code calls it behind \<open>!value ||\<close>, so never on
  \<open>undefined\<close> or \<open>null\<close>, where the call would throw; the two equations for them
  are never reached.
\<close>

fun toString :: "host \<Rightarrow> jsval \<Rightarrow> jsstring" where
  "toString h (String s) = s"
| "toString h (Number n) = num_to_str h n"
| "toString h (Boolean b) = (if b then ascii ''true'' else ascii ''false'')"
| "toString h Undefined = ascii ''undefined''"
| "toString h Null = ascii ''null''"

text \<open>\<open>Number(value)\<close>: a string of white space only (the empty one too) is 0.\<close>

fun toNumber :: "host \<Rightarrow> jsval \<Rightarrow> jsnum" where
  "toNumber h Undefined = NaN"
| "toNumber h Null = Fin 0"
| "toNumber h (Boolean b) = (if b then Fin 1 else Fin 0)"
| "toNumber h (Number n) = n"
| "toNumber h (String s) = (if trim s = [] then Fin 0 else str_to_num h s)"

section \<open>ValidatedInput\<close>

text \<open>
  The props the validation reads. \<open>None\<close> is a prop that was not passed
  (\<open>undefined\<close>); \<open>required\<close>, \<open>externalErrors\<close> and \<open>skipInternalValidation\<close> then
  take their defaults. \<open>rest\<close> is the object of the remaining props (\<open>...props\<close>), which
  the component spreads onto the control. The label, the tooltip, the change handler,
  the placeholder, the row count and the class name do not reach the validation and are
  left out.
\<close>

record field_props =
  name :: "jsstring option"
  "value" :: jsval
  required :: "bool option"
  minLength :: "jsnum option"
  maxLength :: "jsnum option"
  rest :: "(jsstring \<times> jsval) list"

record input_props = field_props +
  externalErrors :: "jsstring list option"
  pattern :: "jsstring option"
  patternMessage :: "jsstring option"
  minimum :: "jsnum option"
  maximum :: "jsnum option"
  skipInternalValidation :: "bool option"

definition default :: "'a \<Rightarrow> 'a option \<Rightarrow> 'a" where
  "default d x = (case x of None \<Rightarrow> d | Some y \<Rightarrow> y)"

definition hasInternalError :: "host \<Rightarrow> input_props \<Rightarrow> bool" where
  "hasInternalError h p \<longleftrightarrow>
     \<not> default False (skipInternalValidation p) \<and> default False (required p) \<and>
     (\<not> truthy (value p) \<or> trim (toString h (value p)) = [])"

text \<open>
  The immediately invoked function of the pattern check, before its \<open>try\<close> is closed:
  the constructor may throw.
\<close>

definition pattern_test :: "host \<Rightarrow> jsstring \<Rightarrow> jsstring \<Rightarrow> js_error + bool" where
  "pattern_test h pat v =
     (case RegExp_new h pat of
        Inl e \<Rightarrow> Inl e
      | Inr test \<Rightarrow> Inr (\<not> test v))"

definition try_pattern_test :: "host \<Rightarrow> jsstring \<Rightarrow> jsstring \<Rightarrow> bool" where
  "try_pattern_test h pat v =
     (case pattern_test h pat v of
        Inl e \<Rightarrow> False
      | Inr b \<Rightarrow> b)"

definition hasPatternError :: "host \<Rightarrow> input_props \<Rightarrow> bool" where
  "hasPatternError h p \<longleftrightarrow>
     \<not> default False (skipInternalValidation p) \<and>
     (case pattern p of
        None \<Rightarrow> False
      | Some pat \<Rightarrow>
          pat \<noteq> [] \<and>
          (case value p of
             String v \<Rightarrow> v \<noteq> [] \<and> trim v \<noteq> [] \<and> try_pattern_test h pat v
           | _ \<Rightarrow> False))"

definition trimmed :: "jsval \<Rightarrow> jsstring" where
  "trimmed v = (case v of String s \<Rightarrow> (if s \<noteq> [] then trim s else []) | _ \<Rightarrow> [])"

definition str_length :: "jsstring \<Rightarrow> jsnum" where
  "str_length s = Fin (of_nat (length s))"

definition hasMinLengthError :: "input_props \<Rightarrow> bool" where
  "hasMinLengthError p \<longleftrightarrow>
     \<not> default False (skipInternalValidation p) \<and>
     (case minLength p of
        None \<Rightarrow> False
      | Some n \<Rightarrow> trimmed (value p) \<noteq> [] \<and> num_lt (str_length (trimmed (value p))) n)"

definition hasMaxLengthError :: "input_props \<Rightarrow> bool" where
  "hasMaxLengthError p \<longleftrightarrow>
     \<not> default False (skipInternalValidation p) \<and>
     (case maxLength p of
        None \<Rightarrow> False
      | Some n \<Rightarrow> trimmed (value p) \<noteq> [] \<and> num_gt (str_length (trimmed (value p))) n)"

definition numericValue :: "host \<Rightarrow> jsval \<Rightarrow> jsnum" where
  "numericValue h v =
     (if v \<noteq> Undefined \<and> v \<noteq> Null \<and> v \<noteq> String [] then toNumber h v else NaN)"

definition hasMinimumError :: "host \<Rightarrow> input_props \<Rightarrow> bool" where
  "hasMinimumError h p \<longleftrightarrow>
     \<not> default False (skipInternalValidation p) \<and>
     (case minimum p of
        None \<Rightarrow> False
      | Some m \<Rightarrow> \<not> isNaN (numericValue h (value p)) \<and> num_lt (numericValue h (value p)) m)"

definition hasMaximumError :: "host \<Rightarrow> input_props \<Rightarrow> bool" where
  "hasMaximumError h p \<longleftrightarrow>
     \<not> default False (skipInternalValidation p) \<and>
     (case maximum p of
        None \<Rightarrow> False
      | Some m \<Rightarrow> \<not> isNaN (numericValue h (value p)) \<and> num_gt (numericValue h (value p)) m)"

subsection \<open>The messages\<close>

definition required_message :: jsstring where
  "required_message = ascii ''This field is required''"

text \<open>
  \<open>${x}\<close> in a template literal, for a string or a number that may be \<open>undefined\<close>.
\<close>

definition template_str :: "jsstring option \<Rightarrow> jsstring" where
  "template_str x = (case x of None \<Rightarrow> ascii ''undefined'' | Some s \<Rightarrow> s)"

definition template_num :: "host \<Rightarrow> jsnum option \<Rightarrow> jsstring" where
  "template_num h x = (case x of None \<Rightarrow> ascii ''undefined'' | Some n \<Rightarrow> num_to_str h n)"

definition pattern_message :: "input_props \<Rightarrow> jsstring" where
  "pattern_message p =
     (case patternMessage p of
        Some m \<Rightarrow>
          (if m \<noteq> [] then m else ascii ''Value must match pattern: '' @ template_str (pattern p))
      | None \<Rightarrow> ascii ''Value must match pattern: '' @ template_str (pattern p))"

definition minLength_message :: "host \<Rightarrow> jsnum option \<Rightarrow> jsstring \<Rightarrow> jsstring" where
  "minLength_message h n t =
     ascii ''Minimum length is '' @ template_num h n @ ascii '' (currently '' @
     num_to_str h (str_length t) @ ascii '')''"

definition maxLength_message :: "host \<Rightarrow> jsnum option \<Rightarrow> jsstring \<Rightarrow> jsstring" where
  "maxLength_message h n t =
     ascii ''Maximum length is '' @ template_num h n @ ascii '' (currently '' @
     num_to_str h (str_length t) @ ascii '')''"

definition minimum_message :: "host \<Rightarrow> jsnum option \<Rightarrow> jsstring" where
  "minimum_message h m = ascii ''Minimum value is '' @ template_num h m"

definition maximum_message :: "host \<Rightarrow> jsnum option \<Rightarrow> jsstring" where
  "maximum_message h m = ascii ''Maximum value is '' @ template_num h m"

text \<open>\<open>errorMessages.push(m)\<close> and \<open>errorMessages.push(...ms)\<close> on the array so far.\<close>

definition push :: "'a list \<Rightarrow> 'a \<Rightarrow> 'a list" where
  "push xs x = xs @ [x]"

definition push_all :: "'a list \<Rightarrow> 'a list \<Rightarrow> 'a list" where
  "push_all xs ys = foldl push xs ys"

definition errorMessages :: "host \<Rightarrow> input_props \<Rightarrow> jsstring list" where
  "errorMessages h p =
     (let e0 = [];
          e1 = (if hasInternalError h p then push e0 required_message else e0);
          e2 = (if hasPatternError h p then push e1 (pattern_message p) else e1);
          e3 = (if hasMinLengthError p
                then push e2 (minLength_message h (minLength p) (trimmed (value p)))
                else e2);
          e4 = (if hasMaxLengthError p
                then push e3 (maxLength_message h (maxLength p) (trimmed (value p)))
                else e3);
          e5 = (if hasMinimumError h p then push e4 (minimum_message h (minimum p)) else e4);
          e6 = (if hasMaximumError h p then push e5 (maximum_message h (maximum p)) else e5)
      in push_all e6 (default [] (externalErrors p)))"

definition hasError :: "jsstring list \<Rightarrow> bool" where
  "hasError msgs \<longleftrightarrow> length msgs > 0"

subsection \<open>What is rendered\<close>

text \<open>
  The control's attributes are written in the order of the JSX, the spread of the
  remaining props last; where a name is bound twice the later binding is the one the
  control gets. The error paragraphs are the messages, rendered only when there is one.
\<close>

record rendered =
  control :: "(jsstring \<times> jsval) list"
  paragraphs :: "jsstring list"

definition attr :: "rendered \<Rightarrow> jsstring \<Rightarrow> jsval option" where
  "attr r k = map_of (rev (control r)) k"

definition name_value :: "jsstring option \<Rightarrow> jsval" where
  "name_value n = (case n of None \<Rightarrow> Undefined | Some s \<Rightarrow> String s)"

definition control_attrs :: "'a field_props_scheme \<Rightarrow> jsstring list \<Rightarrow> (jsstring \<times> jsval) list" where
  "control_attrs p msgs =
     [(ascii ''name'', name_value (name p)),
      (ascii ''id'', name_value (name p)),
      (ascii ''value'', value p),
      (ascii ''aria-invalid'', Boolean (hasError msgs)),
      (ascii ''aria-describedby'',
         (if hasError msgs then String (template_str (name p) @ ascii ''-error'') else Undefined))]
     @ rest p"

definition ValidatedInput :: "host \<Rightarrow> input_props \<Rightarrow> rendered" where
  "ValidatedInput h p =
     (let msgs = errorMessages h p
      in \<lparr> control = (ascii ''type'', String (ascii ''text'')) # control_attrs p msgs,
           paragraphs = (if hasError msgs then msgs else []) \<rparr>)"

section \<open>ValidatedTextarea\<close>

text \<open>
  \<open>value || ''\<close>, then its \<open>trim\<close> method: a truthy value that is not a string has no
  such method and the call throws a TypeError.
\<close>

definition strValue :: "jsval \<Rightarrow> jsval" where
  "strValue v = (if truthy v then v else String [])"

definition trim_method :: "jsval \<Rightarrow> js_error + jsstring" where
  "trim_method v = (case v of String s \<Rightarrow> Inr (trim s) | _ \<Rightarrow> Inl TypeError)"

definition textarea_messages :: "host \<Rightarrow> field_props \<Rightarrow> jsstring \<Rightarrow> jsstring list" where
  "textarea_messages h p t =
     (let e0 = [];
          e1 = (if default False (required p) \<and> t = [] then push e0 required_message else e0);
          e2 = (if t \<noteq> [] \<and>
                   (case minLength p of None \<Rightarrow> False | Some n \<Rightarrow> num_lt (str_length t) n)
                then push e1 (minLength_message h (minLength p) t)
                else e1);
          e3 = (if t \<noteq> [] \<and>
                   (case maxLength p of None \<Rightarrow> False | Some n \<Rightarrow> num_gt (str_length t) n)
                then push e2 (maxLength_message h (maxLength p) t)
                else e2)
      in e3)"

definition ValidatedTextarea :: "host \<Rightarrow> field_props \<Rightarrow> js_error + rendered" where
  "ValidatedTextarea h p =
     (case trim_method (strValue (value p)) of
        Inl e \<Rightarrow> Inl e
      | Inr t \<Rightarrow>
          (let msgs = textarea_messages h p t
           in Inr \<lparr> control = control_attrs p msgs,
                    paragraphs = (if hasError msgs then msgs else []) \<rparr>))"

section \<open>The error list as the specification words it\<close>

text \<open>
  One optional message per check, in the order required, pattern, minimum length,
  maximum length, minimum value, maximum value.
\<close>

definition message_if :: "bool \<Rightarrow> jsstring \<Rightarrow> jsstring list" where
  "message_if fires m = (if fires then [m] else [])"

definition derived_errors :: "host \<Rightarrow> input_props \<Rightarrow> jsstring list" where
  "derived_errors h p =
     message_if (hasInternalError h p) required_message @
     message_if (hasPatternError h p) (pattern_message p) @
     message_if (hasMinLengthError p) (minLength_message h (minLength p) (trimmed (value p))) @
     message_if (hasMaxLengthError p) (maxLength_message h (maxLength p) (trimmed (value p))) @
     message_if (hasMinimumError h p) (minimum_message h (minimum p)) @
     message_if (hasMaximumError h p) (maximum_message h (maximum p))"

text \<open>An empty value: absent (\<open>undefined\<close>, \<open>null\<close>), the empty string, or white space only.\<close>

fun empty_value :: "jsval \<Rightarrow> bool" where
  "empty_value Undefined = True"
| "empty_value Null = True"
| "empty_value (String s) = list_all is_ws s"
| "empty_value _ = False"

section \<open>TermsOfUse: the custom properties\<close>

subsection \<open>Objects as keyed lookups\<close>

text \<open>
  An ordinary object is the list of its own properties in the order in which
  \<open>Object.entries\<close> and \<open>for-in\<close> visit them: the keys that are array indices
  (canonical decimal numerals below \<open>2^32 - 1\<close>) in ascending order first, then the
  other keys in the order of their creation.
\<close>

definition is_digit :: "jschar \<Rightarrow> bool" where
  "is_digit c \<longleftrightarrow> 0x30 \<le> c \<and> c \<le> 0x39"

definition digit_value :: "jschar \<Rightarrow> nat" where
  "digit_value c = unat c - 48"

definition decimal_value :: "jsstring \<Rightarrow> nat" where
  "decimal_value s = foldl (\<lambda>a c. 10 * a + digit_value c) 0 s"

definition array_index :: "jsstring \<Rightarrow> nat option" where
  "array_index k =
     (if k \<noteq> [] \<and> list_all is_digit k \<and> (k = [0x30] \<or> take 1 k \<noteq> [0x30]) \<and>
         decimal_value k < 4294967295
      then Some (decimal_value k) else None)"

definition key_rank :: "jsstring \<Rightarrow> nat" where
  "key_rank k = (case array_index k of Some i \<Rightarrow> i | None \<Rightarrow> 4294967295)"

type_synonym 'w object = "(jsstring \<times> 'w) list"

definition own_keys :: "'w object \<Rightarrow> jsstring list" where
  "own_keys obj = map fst obj"

definition ordinary :: "'w object \<Rightarrow> bool" where
  "ordinary obj \<longleftrightarrow> distinct (own_keys obj) \<and> sorted (map key_rank (own_keys obj))"

text \<open>A new own property takes its place in that order.\<close>

fun create_property :: "jsstring \<Rightarrow> 'w \<Rightarrow> 'w object \<Rightarrow> 'w object" where
  "create_property k v [] = [(k, v)]"
| "create_property k v ((k', v') # obj) =
     (if key_rank k' \<le> key_rank k then (k', v') # create_property k v obj
      else (k, v) # (k', v') # obj)"

definition proto_key :: jsstring where
  "proto_key = ascii ''__proto__''"

text \<open>
  \<open>acc[k] = v\<close> on an object made by \<open>{}\<close>: an own property is overwritten where it
  stands, a new one is created. The key \<open>__proto__\<close> is the accessor inherited from
  \<open>Object.prototype\<close>: assigning to it creates no own property. (When the assigned
  value is itself an object or \<open>null\<close> the assignment changes the prototype, which
  the model does not follow; the theorems about \<open>customPropertiesLookup\<close> are about
  collections with no item of that name.)
\<close>

definition assign :: "jsstring \<Rightarrow> 'w \<Rightarrow> 'w object \<Rightarrow> 'w object" where
  "assign k v obj =
     (if k = proto_key then obj
      else if k \<in> set (own_keys obj)
           then map (\<lambda>(k', v'). if k' = k then (k', v) else (k', v')) obj
           else create_property k v obj)"

subsection \<open>The collection\<close>

text \<open>
  An item of the array form is an object with a \<open>property\<close> and a \<open>value\<close> field,
  either of which may be missing (\<open>None\<close> is \<open>undefined\<close>), and possibly other
  fields; property names are strings. An element of the array may also be \<open>null\<close> or
  \<open>undefined\<close> (\<open>None\<close>). The values are of any type \<open>'v\<close>.
\<close>

record 'v item =
  property :: "jsstring option"
  item_value :: "'v option"
  others :: "'v object"

text \<open>
  \<open>description?.customProperties\<close>: an array, an object, or a primitive value
  (\<open>undefined\<close> when the document has none).
\<close>

datatype 'v custom_properties =
  Items "'v item option list"
| Lookup "'v option object"
| Scalar jsval

definition reducer :: "'v option object \<Rightarrow> 'v item option \<Rightarrow> 'v option object" where
  "reducer acc element =
     (case element of
        None \<Rightarrow> acc
      | Some it \<Rightarrow>
          (case property it of
             None \<Rightarrow> acc
           | Some k \<Rightarrow> assign k (item_value it) acc))"

definition customPropertiesLookup :: "'v custom_properties \<Rightarrow> 'v custom_properties" where
  "customPropertiesLookup props =
     (case props of
        Items xs \<Rightarrow> Lookup (foldl reducer [] xs)
      | Lookup obj \<Rightarrow> Lookup obj
      | Scalar v \<Rightarrow> (if truthy v then Scalar v else Lookup []))"

definition entry_item :: "jsstring \<times> 'v option \<Rightarrow> 'v item option" where
  "entry_item e = (case e of (k, v) \<Rightarrow> Some \<lparr> property = Some k, item_value = v, others = [] \<rparr>)"

definition currentArray :: "'v custom_properties \<Rightarrow> 'v item option list" where
  "currentArray currentProps =
     (case currentProps of
        Items xs \<Rightarrow> xs
      | Lookup obj \<Rightarrow> map entry_item obj
      | Scalar v \<Rightarrow> [])"

text \<open>
  \<open>currentArray.filter(item => item.property !== property)\<close> and
  \<open>currentArray.findIndex(item => item.property === property)\<close>: reading
  \<open>item.property\<close> of a \<open>null\<close> or \<open>undefined\<close> element throws. \<open>findIndex\<close> stops at
  the first match and answers \<open>-1\<close> when there is none.
\<close>

fun filter_other :: "jsstring option \<Rightarrow> 'v item option list \<Rightarrow> js_error + 'v item option list" where
  "filter_other p [] = Inr []"
| "filter_other p (None # xs) = Inl TypeError"
| "filter_other p (Some it # xs) =
     (case filter_other p xs of
        Inl e \<Rightarrow> Inl e
      | Inr ys \<Rightarrow> Inr (if property it \<noteq> p then Some it # ys else ys))"

fun findIndex :: "jsstring option \<Rightarrow> 'v item option list \<Rightarrow> js_error + int" where
  "findIndex p [] = Inr (- 1)"
| "findIndex p (None # xs) = Inl TypeError"
| "findIndex p (Some it # xs) =
     (if property it = p then Inr 0
      else (case findIndex p xs of
              Inl e \<Rightarrow> Inl e
            | Inr i \<Rightarrow> Inr (if i \<ge> 0 then i + 1 else - 1)))"

text \<open>
  \<open>updateCustomProperty(property, value)\<close> ends in one call
  \<open>setYamlValue('description.customProperties', x)\<close>; the model returns the path and
  \<open>x\<close> (\<open>None\<close> is \<open>undefined\<close>), or the error thrown before the call. The store
  behind \<open>setYamlValue\<close> is not part of these files.
\<close>

definition updateCustomProperty ::
  "'v custom_properties \<Rightarrow> jsstring option \<Rightarrow> 'v option
     \<Rightarrow> js_error + jsstring \<times> 'v item option list option" where
  "updateCustomProperty currentProps p v =
     (let cur = currentArray currentProps in
      if v = None then
        (case filter_other p cur of
           Inl e \<Rightarrow> Inl e
         | Inr updated \<Rightarrow>
             Inr (ascii ''description.customProperties'',
                  if length updated > 0 then Some updated else None))
      else
        (case findIndex p cur of
           Inl e \<Rightarrow> Inl e
         | Inr existingIndex \<Rightarrow>
             if existingIndex \<ge> 0
             then Inr (ascii ''description.customProperties'',
                       Some (cur [nat existingIndex := Some \<lparr> property = p, item_value = v, others = [] \<rparr>]))
             else Inr (ascii ''description.customProperties'',
                       Some (cur @ [Some \<lparr> property = p, item_value = v, others = [] \<rparr>]))))"

subsection \<open>Words of the specification about collections\<close>

text \<open>
  The property/value entries of an array: its items that carry a property name, in
  order. An element is named \<open>p\<close> when it is an item whose property is \<open>p\<close>. The
  array a call stored (none for \<open>undefined\<close>).
\<close>

definition entry_of :: "'v item option \<Rightarrow> (jsstring \<times> 'v option) list" where
  "entry_of element =
     (case element of
        None \<Rightarrow> []
      | Some it \<Rightarrow> (case property it of None \<Rightarrow> [] | Some k \<Rightarrow> [(k, item_value it)]))"

definition entries :: "'v item option list \<Rightarrow> (jsstring \<times> 'v option) list" where
  "entries xs = concat (map entry_of xs)"

definition named :: "jsstring option \<Rightarrow> 'v item option \<Rightarrow> bool" where
  "named p element = (case element of None \<Rightarrow> False | Some it \<Rightarrow> property it = p)"

definition stored :: "'a list option \<Rightarrow> 'a list" where
  "stored x = (case x of None \<Rightarrow> [] | Some xs \<Rightarrow> xs)"

text \<open>
  The elements of a collection: those of the array form as they are; for the object
  form one \<open>{property, value}\<close> item per own entry, in the object's order; none for a
  primitive. The collection after a call: the array the call stored, or the collection
  as it was when the call threw before storing.
\<close>

fun collection_elements :: "'v custom_properties \<Rightarrow> 'v item option list" where
  "collection_elements (Items xs) = xs"
| "collection_elements (Lookup obj) =
     map (\<lambda>(k, v). Some \<lparr> property = Some k, item_value = v, others = [] \<rparr>) obj"
| "collection_elements (Scalar s) = []"

definition collection_after ::
  "'v custom_properties \<Rightarrow> js_error + jsstring \<times> 'v item option list option
     \<Rightarrow> 'v item option list" where
  "collection_after cp outcome =
     (case outcome of
        Inl e \<Rightarrow> collection_elements cp
      | Inr (path, x) \<Rightarrow> stored x)"

section \<open>A host for running the model\<close>

text \<open>
  The theorems below hold for every host. To run the model on a concrete input a host
  is needed; this one agrees with a JavaScript engine on the inputs it is run on here:
  a pattern of letters and digits matches where it occurs in the value, the pattern
  \<open>(\<close> is malformed, a string of decimal digits denotes its number, and a natural
  number is printed in decimal.
\<close>

fun starts_with :: "jsstring \<Rightarrow> jsstring \<Rightarrow> bool" where
  "starts_with [] v = True"
| "starts_with (a # pat) [] = False"
| "starts_with (a # pat) (b # v) = (a = b \<and> starts_with pat v)"

fun occurs_in :: "jsstring \<Rightarrow> jsstring \<Rightarrow> bool" where
  "occurs_in pat [] = (pat = [])"
| "occurs_in pat (b # v) = (starts_with pat (b # v) \<or> occurs_in pat v)"

function decimal :: "nat \<Rightarrow> jsstring" where
  "decimal n = (if n < 10 then [of_nat (48 + n)] else decimal (n div 10) @ [of_nat (48 + n mod 10)])"
  by pat_completeness auto
termination
  by (relation "measure id") auto

declare decimal.simps [simp del]

definition sample_host :: host where
  "sample_host =
     \<lparr> RegExp_new = (\<lambda>pat. if pat = ascii ''('' then Inl SyntaxError else Inr (occurs_in pat)),
       str_to_num = (\<lambda>s. if list_all is_digit (trim s) then Fin (of_nat (decimal_value (trim s))) else NaN),
       num_to_str = (\<lambda>n. case n of Fin q \<Rightarrow> decimal (nat \<lfloor>q\<rfloor>) | _ \<Rightarrow> ascii ''NaN'') \<rparr>"

text \<open>The components with no prop passed; a concrete rendering updates the props it passes.\<close>

definition no_field_props :: field_props where
  "no_field_props =
     \<lparr> name = None, value = Undefined, required = None, minLength = None, maxLength = None,
       rest = [] \<rparr>"

definition no_input_props :: input_props where
  "no_input_props =
     \<lparr> name = None, value = Undefined, required = None, minLength = None, maxLength = None,
       rest = [], externalErrors = None, pattern = None, patternMessage = None,
       minimum = None, maximum = None, skipInternalValidation = None \<rparr>"

section \<open>Properties of the validation\<close>

lemma push_all_append: "push_all xs ys = xs @ ys"
  unfolding push_all_def by (induction ys arbitrary: xs) (simp_all add: push_def)

lemma errorMessages_derived:
  "errorMessages h p = derived_errors h p @ default [] (externalErrors p)"
  by (simp add: errorMessages_def derived_errors_def message_if_def push_def push_all_append
      Let_def)

lemma paragraphs_ValidatedInput: "paragraphs (ValidatedInput h p) = errorMessages h p"
  by (simp add: ValidatedInput_def Let_def hasError_def)

text \<open>
  C2. For every combination of props, the error list computed by ValidatedInput, and
  the list of paragraphs it renders, is the list derived from the constraints (the
  required, pattern, minimum-length, maximum-length, minimum-value and maximum-value
  checks, in this order, each giving its message when it fires) followed by the
  caller's external errors, unchanged; nothing else is in it.
\<close>

theorem error_list_is_derived_then_external:
  "errorMessages h p = derived_errors h p @ default [] (externalErrors p) \<and>
   paragraphs (ValidatedInput h p) = derived_errors h p @ default [] (externalErrors p)"
  by (simp add: errorMessages_derived paragraphs_ValidatedInput)

theorem error_list_is_derived_then_external_witness:
  "paragraphs (ValidatedInput sample_host
     (no_input_props \<lparr> value := String (ascii ''ab''), minLength := Some (Fin 5),
        externalErrors := Some [ascii ''Taken''], pattern := Some (ascii ''xyz'') \<rparr>))
   = [ascii ''Value must match pattern: xyz'', ascii ''Minimum length is 5 (currently 2)'',
      ascii ''Taken'']"
  using error_list_is_derived_then_external [of sample_host
     "no_input_props \<lparr> value := String (ascii ''ab''), minLength := Some (Fin 5),
        externalErrors := Some [ascii ''Taken''], pattern := Some (ascii ''xyz'') \<rparr>"]
  by (simp add: derived_errors_def message_if_def no_input_props_def default_def
      hasInternalError_def hasPatternError_def hasMinLengthError_def hasMaxLengthError_def
      hasMinimumError_def hasMaximumError_def trimmed_def trim_def is_ws_def ascii_def
      try_pattern_test_def pattern_test_def sample_host_def str_length_def
      pattern_message_def template_str_def minLength_message_def template_num_def
      decimal.simps)


lemma trim_empty_iff: "trim s = [] \<longleftrightarrow> list_all is_ws s"
proof
  assume "trim s = []"
  then have a: "\<forall>c \<in> set (dropWhile is_ws s). is_ws c"
    by (simp add: trim_def dropWhile_eq_Nil_conv)
  have "dropWhile is_ws s = []"
  proof (rule ccontr)
    assume ne: "dropWhile is_ws s \<noteq> []"
    then have "\<not> is_ws (hd (dropWhile is_ws s))" by (rule hd_dropWhile)
    moreover from ne have "hd (dropWhile is_ws s) \<in> set (dropWhile is_ws s)" by simp
    ultimately show False using a by blast
  qed
  then have "\<forall>c \<in> set s. is_ws c" by (simp only: dropWhile_eq_Nil_conv)
  then show "list_all is_ws s" by (simp add: list_all_iff)
next
  assume "list_all is_ws s"
  then have "\<forall>c \<in> set s. is_ws c" by (simp add: list_all_iff)
  then have d: "dropWhile is_ws s = []" by (simp only: dropWhile_eq_Nil_conv)
  show "trim s = []" by (simp only: trim_def d rev.simps dropWhile.simps)
qed

lemma trimmed_empty_value: "empty_value v \<Longrightarrow> trimmed v = []"
  by (cases v) (simp_all add: trimmed_def trim_empty_iff)

lemma empty_value_internal:
  "empty_value v \<Longrightarrow> \<not> truthy v \<or> trim (toString h v) = []"
  by (cases v) (simp_all add: trim_empty_iff)

lemma empty_value_no_pattern: "empty_value (value p) \<Longrightarrow> \<not> hasPatternError h p"
  by (cases "value p") (simp_all add: hasPatternError_def trim_empty_iff split: option.splits)

lemma empty_value_no_minLength: "empty_value (value p) \<Longrightarrow> \<not> hasMinLengthError p"
  by (simp add: hasMinLengthError_def trimmed_empty_value split: option.splits)

lemma empty_value_no_maxLength: "empty_value (value p) \<Longrightarrow> \<not> hasMaxLengthError p"
  by (simp add: hasMaxLengthError_def trimmed_empty_value split: option.splits)

lemma required_message_not_minimum: "minimum_message h m \<noteq> required_message"
  by (simp add: minimum_message_def required_message_def ascii_def)

lemma required_message_not_maximum: "maximum_message h m \<noteq> required_message"
  by (simp add: maximum_message_def required_message_def ascii_def)

lemma count_list_absent: "x \<notin> set xs \<Longrightarrow> count_list xs x = 0"
  by (induction xs) auto

lemma textarea_empty_value:
  "empty_value v \<Longrightarrow> trim_method (strValue v) = Inr []"
  by (cases v) (simp_all add: trim_method_def strValue_def trim_empty_iff)



lemma textarea_messages_blank:
  "textarea_messages h q [] = (if default False (required q) then [required_message] else [])"
  by (simp add: textarea_messages_def push_def Let_def)

lemma ValidatedTextarea_blank:
  assumes "trim_method (strValue (value q)) = Inr []"
  shows "\<exists>r. ValidatedTextarea h q = Inr r \<and>
     paragraphs r = (if default False (required q) then [required_message] else [])"
  using assms by (simp add: ValidatedTextarea_def textarea_messages_blank hasError_def Let_def)

lemma required_count_derived:
  assumes "hasInternalError h p" "\<not> hasPatternError h p" "\<not> hasMinLengthError p"
    "\<not> hasMaxLengthError p"
  shows "count_list (derived_errors h p) required_message = 1"
  using assms
  by (simp add: derived_errors_def message_if_def required_message_not_minimum
      required_message_not_maximum)

lemmas eval_defs = no_input_props_def no_field_props_def default_def
  hasInternalError_def hasPatternError_def hasMinLengthError_def hasMaxLengthError_def
  hasMinimumError_def hasMaximumError_def trimmed_def trim_def is_ws_def ascii_def
  try_pattern_test_def pattern_test_def sample_host_def str_length_def numericValue_def
  isNaN_def num_gt_def required_message_def

text \<open>
  C3, as amended. A field rendered with \<open>required = true\<close> and an empty value (absent,
  the empty string, or white space only) shows the message 'This field is required'
  exactly once, provided \<open>skipInternalValidation\<close> is off and the caller's external
  errors do not carry that same text: the required check fires, the pattern and the two
  length checks do not, and on an absent or empty-string value neither numeric check
  fires. ValidatedTextarea, which has neither the switch nor external errors, shows
  exactly that one message.
\<close>

theorem required_empty_value_one_message:
  assumes "required p = Some True" and "empty_value (value p)"
    and "\<not> default False (skipInternalValidation p)"
    and "required_message \<notin> set (default [] (externalErrors p))"
    and "required q = Some True" and "empty_value (value q)"
  shows "count_list (paragraphs (ValidatedInput h p)) required_message = 1 \<and>
    hasInternalError h p \<and> \<not> hasPatternError h p \<and> \<not> hasMinLengthError p \<and>
    \<not> hasMaxLengthError p \<and>
    (value p = Undefined \<or> value p = Null \<or> value p = String [] \<longrightarrow>
       \<not> hasMinimumError h p \<and> \<not> hasMaximumError h p) \<and>
    (\<exists>r. ValidatedTextarea h q = Inr r \<and> paragraphs r = [required_message])"
proof -
  have int: "hasInternalError h p"
    using assms(1-3) empty_value_internal [of "value p" h]
    by (simp add: hasInternalError_def default_def)
  have pat: "\<not> hasPatternError h p" using assms(2) by (rule empty_value_no_pattern)
  have minl: "\<not> hasMinLengthError p" using assms(2) by (rule empty_value_no_minLength)
  have maxl: "\<not> hasMaxLengthError p" using assms(2) by (rule empty_value_no_maxLength)
  have "count_list (derived_errors h p) required_message = 1"
    using int pat minl maxl by (rule required_count_derived)
  then have cnt: "count_list (paragraphs (ValidatedInput h p)) required_message = 1"
    using assms(4)
    by (simp add: paragraphs_ValidatedInput errorMessages_derived count_list_absent)
  have num: "value p = Undefined \<or> value p = Null \<or> value p = String [] \<longrightarrow>
       \<not> hasMinimumError h p \<and> \<not> hasMaximumError h p"
    by (auto simp: hasMinimumError_def hasMaximumError_def numericValue_def isNaN_def
        split: option.splits)
  have "trim_method (strValue (value q)) = Inr []"
    using assms(6) by (rule textarea_empty_value)
  then have "\<exists>r. ValidatedTextarea h q = Inr r \<and>
     paragraphs r = (if default False (required q) then [required_message] else [])"
    by (rule ValidatedTextarea_blank)
  then have ta: "\<exists>r. ValidatedTextarea h q = Inr r \<and> paragraphs r = [required_message]"
    using assms(5) by (simp add: default_def)
  show ?thesis using cnt int pat minl maxl num ta by blast
qed

theorem required_empty_value_one_message_witness:
  "paragraphs (ValidatedInput sample_host
     (no_input_props \<lparr> value := String (ascii ''  ''), required := Some True,
        minLength := Some (Fin 3), pattern := Some (ascii ''abc'') \<rparr>))
     = [ascii ''This field is required''] \<and>
   ValidatedTextarea sample_host (no_field_props \<lparr> required := Some True \<rparr>)
     = Inr \<lparr> control = control_attrs (no_field_props \<lparr> required := Some True \<rparr>)
                 [ascii ''This field is required''],
              paragraphs = [ascii ''This field is required''] \<rparr>"
  using required_empty_value_one_message [of
     "no_input_props \<lparr> value := String (ascii ''  ''), required := Some True,
        minLength := Some (Fin 3), pattern := Some (ascii ''abc'') \<rparr>"
     "no_field_props \<lparr> required := Some True \<rparr>" sample_host]
  by (simp add: eval_defs paragraphs_ValidatedInput errorMessages_derived derived_errors_def
      message_if_def ValidatedTextarea_def strValue_def trim_method_def textarea_messages_def
      push_def hasError_def Let_def)

text \<open>
  With \<open>skipInternalValidation\<close> set, a required empty field shows no message at all.
  With an external error of the same text it shows the message twice. On a value of
  white space only, \<open>Number(value)\<close> is 0 and the minimum check fires beside the required
  one.
\<close>

theorem required_skipped_counterexample:
  "required (no_input_props \<lparr> value := String [], required := Some True,
       skipInternalValidation := Some True \<rparr>) = Some True \<and>
   empty_value (value (no_input_props \<lparr> value := String [], required := Some True,
       skipInternalValidation := Some True \<rparr>)) \<and>
   paragraphs (ValidatedInput sample_host
     (no_input_props \<lparr> value := String [], required := Some True,
        skipInternalValidation := Some True \<rparr>)) = [] \<and>
   paragraphs (ValidatedInput sample_host
     (no_input_props \<lparr> value := String [], required := Some True,
        externalErrors := Some [ascii ''This field is required''] \<rparr>))
     = [ascii ''This field is required'', ascii ''This field is required''] \<and>
   empty_value (String (ascii ''  '')) \<and>
   hasMinimumError sample_host
     (no_input_props \<lparr> value := String (ascii ''  ''), required := Some True,
        minimum := Some (Fin 5) \<rparr>)"
  by (simp add: eval_defs paragraphs_ValidatedInput errorMessages_derived derived_errors_def
      message_if_def)


text \<open>
  C4. When the regular-expression constructor throws on the pattern, then for every
  value the throw is caught and the pattern check reports no error; the component still
  renders, with the messages of the other checks and the external errors only.
\<close>

theorem malformed_pattern_is_no_error:
  assumes "RegExp_new h pat = Inl e" and "pattern p = Some pat"
  shows "pattern_test h pat v = Inl e \<and> try_pattern_test h pat v = False \<and>
    \<not> hasPatternError h p \<and>
    paragraphs (ValidatedInput h p) =
      message_if (hasInternalError h p) required_message @
      message_if (hasMinLengthError p) (minLength_message h (minLength p) (trimmed (value p))) @
      message_if (hasMaxLengthError p) (maxLength_message h (maxLength p) (trimmed (value p))) @
      message_if (hasMinimumError h p) (minimum_message h (minimum p)) @
      message_if (hasMaximumError h p) (maximum_message h (maximum p)) @
      default [] (externalErrors p)"
proof -
  have t: "pattern_test h pat v = Inl e" for v
    using assms(1) by (simp add: pattern_test_def)
  then have c: "try_pattern_test h pat v = False" for v
    by (simp add: try_pattern_test_def)
  have n: "\<not> hasPatternError h p"
    using assms(2) c by (simp add: hasPatternError_def split: jsval.splits)
  then show ?thesis
    using t c
    by (simp add: paragraphs_ValidatedInput errorMessages_derived derived_errors_def
        message_if_def)
qed

theorem malformed_pattern_is_no_error_witness:
  "RegExp_new sample_host (ascii ''('') = Inl SyntaxError \<and>
   paragraphs (ValidatedInput sample_host
     (no_input_props \<lparr> value := String (ascii ''abc''), pattern := Some (ascii ''('') \<rparr>)) = []"
  using malformed_pattern_is_no_error [of sample_host "ascii ''(''" SyntaxError
     "no_input_props \<lparr> value := String (ascii ''abc''), pattern := Some (ascii ''('') \<rparr>"]
  by (simp add: eval_defs message_if_def paragraphs_ValidatedInput errorMessages_derived
      derived_errors_def)

text \<open>
  C6, as amended. Whether a check fires depends only on the value, on the
  \<open>skipInternalValidation\<close> switch and on that check's own constraint option: two
  renderings that agree on the value and the switch agree on every check whose own option
  they agree on, whatever the other options are.
\<close>

theorem check_depends_on_own_option:
  assumes "value p = value q" and "skipInternalValidation p = skipInternalValidation q"
  shows "(required p = required q \<longrightarrow> hasInternalError h p = hasInternalError h q) \<and>
    (pattern p = pattern q \<longrightarrow> hasPatternError h p = hasPatternError h q) \<and>
    (minLength p = minLength q \<longrightarrow> hasMinLengthError p = hasMinLengthError q) \<and>
    (maxLength p = maxLength q \<longrightarrow> hasMaxLengthError p = hasMaxLengthError q) \<and>
    (minimum p = minimum q \<longrightarrow> hasMinimumError h p = hasMinimumError h q) \<and>
    (maximum p = maximum q \<longrightarrow> hasMaximumError h p = hasMaximumError h q)"
  using assms
  by (simp add: hasInternalError_def hasPatternError_def hasMinLengthError_def
      hasMaxLengthError_def hasMinimumError_def hasMaximumError_def
      cong: option.case_cong)

theorem check_depends_on_own_option_witness:
  "hasMinLengthError
     (no_input_props \<lparr> value := String (ascii ''ab''), minLength := Some (Fin 5) \<rparr>) \<and>
   hasMinLengthError
     (no_input_props \<lparr> value := String (ascii ''ab''), required := Some True,
        minLength := Some (Fin 5), maxLength := Some (Fin 1), externalErrors := Some [[]],
        pattern := Some (ascii ''x''), minimum := Some (Fin 7), maximum := Some (Fin 0) \<rparr>)"
  using check_depends_on_own_option [of
     "no_input_props \<lparr> value := String (ascii ''ab''), minLength := Some (Fin 5) \<rparr>"
     "no_input_props \<lparr> value := String (ascii ''ab''), required := Some True,
        minLength := Some (Fin 5), maxLength := Some (Fin 1), externalErrors := Some [[]],
        pattern := Some (ascii ''x''), minimum := Some (Fin 7), maximum := Some (Fin 0) \<rparr>"
     sample_host]
  by (simp add: eval_defs)

text \<open>
  The switch matters: the same value and the same \<open>required\<close> option, and the required
  check fires without the switch and not with it.
\<close>

theorem check_depends_on_skip_counterexample:
  "value (no_input_props \<lparr> required := Some True \<rparr>) =
     value (no_input_props \<lparr> required := Some True, skipInternalValidation := Some True \<rparr>) \<and>
   required (no_input_props \<lparr> required := Some True \<rparr>) =
     required (no_input_props \<lparr> required := Some True, skipInternalValidation := Some True \<rparr>) \<and>
   hasInternalError sample_host (no_input_props \<lparr> required := Some True \<rparr>) \<and>
   \<not> hasInternalError sample_host
     (no_input_props \<lparr> required := Some True, skipInternalValidation := Some True \<rparr>)"
  by (simp add: eval_defs)


lemma map_of_rev_append_absent:
  assumes "k \<notin> fst ` set ys"
  shows "map_of (rev (xs @ ys)) k = map_of (rev xs) k"
proof -
  have "map_of (rev ys) k = None" using assms by (simp add: map_of_eq_None_iff)
  then show ?thesis by (simp add: map_add_def)
qed

lemma attr_aria_invalid:
  assumes "ascii ''aria-invalid'' \<notin> fst ` set (rest p)"
  shows "map_of (rev (control_attrs p msgs)) (ascii ''aria-invalid'')
    = Some (Boolean (msgs \<noteq> []))"
  unfolding control_attrs_def
  by (subst map_of_rev_append_absent [OF assms]) (simp add: ascii_def hasError_def)

lemma attr_aria_describedby:
  assumes "ascii ''aria-describedby'' \<notin> fst ` set (rest p)"
  shows "map_of (rev (control_attrs p msgs)) (ascii ''aria-describedby'')
    = Some (if msgs \<noteq> [] then String (template_str (name p) @ ascii ''-error'') else Undefined)"
  unfolding control_attrs_def
  by (subst map_of_rev_append_absent [OF assms]) (simp add: ascii_def hasError_def)

lemma attr_ValidatedInput:
  "k \<noteq> ascii ''type'' \<Longrightarrow>
   attr (ValidatedInput h p) k = map_of (rev (control_attrs p (errorMessages h p))) k"
  by (simp add: attr_def ValidatedInput_def Let_def map_add_def split: option.splits)

text \<open>
  C7, as amended. When the remaining props spread onto the control carry no
  \<open>aria-invalid\<close> and no \<open>aria-describedby\<close> of their own, the control has
  \<open>aria-invalid\<close> true exactly when the computed error list is not empty, and
  \<open>aria-describedby\<close> is \<open><name>-error\<close> then and \<open>undefined\<close> otherwise; for
  ValidatedInput and, whenever it renders, for ValidatedTextarea.
\<close>

theorem aria_attributes_follow_errors:
  assumes "ascii ''aria-invalid'' \<notin> fst ` set (rest p)"
    and "ascii ''aria-describedby'' \<notin> fst ` set (rest p)"
    and "ascii ''aria-invalid'' \<notin> fst ` set (rest q)"
    and "ascii ''aria-describedby'' \<notin> fst ` set (rest q)"
    and "trim_method (strValue (value q)) = Inr t"
  shows "attr (ValidatedInput h p) (ascii ''aria-invalid'')
      = Some (Boolean (errorMessages h p \<noteq> [])) \<and>
    attr (ValidatedInput h p) (ascii ''aria-describedby'')
      = Some (if errorMessages h p \<noteq> []
              then String (template_str (name p) @ ascii ''-error'') else Undefined) \<and>
    (\<exists>r. ValidatedTextarea h q = Inr r \<and>
       attr r (ascii ''aria-invalid'') = Some (Boolean (textarea_messages h q t \<noteq> [])) \<and>
       attr r (ascii ''aria-describedby'')
         = Some (if textarea_messages h q t \<noteq> []
                 then String (template_str (name q) @ ascii ''-error'') else Undefined))"
proof -
  have i1: "attr (ValidatedInput h p) (ascii ''aria-invalid'')
      = Some (Boolean (errorMessages h p \<noteq> []))"
    using attr_aria_invalid [OF assms(1)] by (simp add: attr_ValidatedInput ascii_def)
  have i2: "attr (ValidatedInput h p) (ascii ''aria-describedby'')
      = Some (if errorMessages h p \<noteq> []
              then String (template_str (name p) @ ascii ''-error'') else Undefined)"
    using attr_aria_describedby [OF assms(2)] by (simp add: attr_ValidatedInput ascii_def)
  have t: "ValidatedTextarea h q =
      Inr \<lparr> control = control_attrs q (textarea_messages h q t),
            paragraphs = (if hasError (textarea_messages h q t)
                          then textarea_messages h q t else []) \<rparr>"
    using assms(5) by (simp add: ValidatedTextarea_def Let_def)
  show ?thesis
    using i1 i2 attr_aria_invalid [OF assms(3)] attr_aria_describedby [OF assms(4)]
    by (simp add: t attr_def)
qed

theorem aria_attributes_follow_errors_witness:
  "attr (ValidatedInput sample_host
      (no_input_props \<lparr> name := Some (ascii ''id''), required := Some True \<rparr>))
      (ascii ''aria-describedby'') = Some (String (ascii ''id-error'')) \<and>
   attr (ValidatedInput sample_host
      (no_input_props \<lparr> name := Some (ascii ''id''), required := Some True \<rparr>))
      (ascii ''aria-invalid'') = Some (Boolean True)"
  using aria_attributes_follow_errors [of
      "no_input_props \<lparr> name := Some (ascii ''id''), required := Some True \<rparr>"
      no_field_props "[]" sample_host]
  by (simp add: eval_defs errorMessages_derived derived_errors_def message_if_def
      template_str_def attr_def ValidatedInput_def control_attrs_def hasError_def
      name_value_def)

text \<open>
  A caller's own \<open>aria-invalid\<close> among the remaining props is spread after the computed
  one and wins: no error, and the control says invalid. Likewise a caller's own
  \<open>aria-describedby\<close>.
\<close>

theorem aria_invalid_overridden_counterexample:
  "errorMessages sample_host
     (no_input_props \<lparr> rest := [(ascii ''aria-invalid'', Boolean True)] \<rparr>) = [] \<and>
   attr (ValidatedInput sample_host
     (no_input_props \<lparr> rest := [(ascii ''aria-invalid'', Boolean True)] \<rparr>))
     (ascii ''aria-invalid'') = Some (Boolean True) \<and>
   errorMessages sample_host
     (no_input_props \<lparr> rest := [(ascii ''aria-describedby'', String (ascii ''hint''))] \<rparr>) = [] \<and>
   attr (ValidatedInput sample_host
     (no_input_props \<lparr> rest := [(ascii ''aria-describedby'', String (ascii ''hint''))] \<rparr>))
     (ascii ''aria-describedby'') = Some (String (ascii ''hint''))"
  by (simp add: eval_defs errorMessages_derived derived_errors_def message_if_def
      attr_def ValidatedInput_def control_attrs_def hasError_def)

text \<open>
  C10, as amended. For a non-empty value of white space only, the pattern, minimum-length
  and maximum-length checks of ValidatedInput report no error, and its required check
  flags the value when \<open>required\<close> is true and \<open>skipInternalValidation\<close> is off;
  ValidatedTextarea shows the required message when \<open>required\<close> is true and nothing
  otherwise.
\<close>

theorem whitespace_value_checks:
  assumes "value p = String s" and "s \<noteq> []" and "list_all is_ws s"
    and "value q = String s"
  shows "\<not> hasPatternError h p \<and> \<not> hasMinLengthError p \<and> \<not> hasMaxLengthError p \<and>
    (default False (required p) \<and> \<not> default False (skipInternalValidation p)
       \<longrightarrow> hasInternalError h p) \<and>
    (\<exists>r. ValidatedTextarea h q = Inr r \<and>
       paragraphs r = (if default False (required q) then [required_message] else []))"
proof -
  have e: "empty_value (value p)" using assms(1,3) by simp
  have eq: "empty_value (value q)" using assms(4,3) by simp
  have "\<not> truthy (value p) \<or> trim (toString h (value p)) = []"
    using e by (rule empty_value_internal)
  then have r: "default False (required p) \<and> \<not> default False (skipInternalValidation p)
       \<longrightarrow> hasInternalError h p"
    by (simp add: hasInternalError_def)
  have "trim_method (strValue (value q)) = Inr []"
    using eq by (rule textarea_empty_value)
  then have ta: "\<exists>r. ValidatedTextarea h q = Inr r \<and>
       paragraphs r = (if default False (required q) then [required_message] else [])"
    by (rule ValidatedTextarea_blank)
  show ?thesis
    using empty_value_no_pattern [OF e] empty_value_no_minLength [OF e]
      empty_value_no_maxLength [OF e] r ta
    by blast
qed

theorem whitespace_value_checks_witness:
  "hasInternalError sample_host
     (no_input_props \<lparr> value := String [0x20, 0x9], required := Some True,
        minLength := Some (Fin 5), maxLength := Some (Fin 1), pattern := Some (ascii ''a'') \<rparr>) \<and>
   \<not> hasMinLengthError
     (no_input_props \<lparr> value := String [0x20, 0x9], required := Some True,
        minLength := Some (Fin 5), maxLength := Some (Fin 1), pattern := Some (ascii ''a'') \<rparr>)"
  using whitespace_value_checks [of
     "no_input_props \<lparr> value := String [0x20, 0x9], required := Some True,
        minLength := Some (Fin 5), maxLength := Some (Fin 1), pattern := Some (ascii ''a'') \<rparr>"
     "[0x20, 0x9]" "no_field_props \<lparr> value := String [0x20, 0x9] \<rparr>" sample_host]
  by (simp add: eval_defs)

text \<open>
  With \<open>skipInternalValidation\<close> set, the required check does not flag a value of white
  space only.
\<close>

theorem whitespace_required_skipped_counterexample:
  "list_all is_ws [0x20, 0x9] \<and>
   required (no_input_props \<lparr> value := String [0x20, 0x9], required := Some True,
        skipInternalValidation := Some True \<rparr>) = Some True \<and>
   \<not> hasInternalError sample_host
     (no_input_props \<lparr> value := String [0x20, 0x9], required := Some True,
        skipInternalValidation := Some True \<rparr>)"
  by (simp add: eval_defs)

section \<open>Properties of the custom-properties collection\<close>

subsection \<open>filter and findIndex\<close>

lemma filter_other_total:
  "None \<notin> set xs \<Longrightarrow> filter_other p xs = Inr (filter (\<lambda>e. \<not> named p e) xs)"
proof (induction xs)
  case Nil
  then show ?case by simp
next
  case (Cons e xs)
  then show ?case by (cases e) (auto simp: named_def)
qed

lemma findIndex_found:
  "findIndex p xs = Inr i \<Longrightarrow> 0 \<le> i \<Longrightarrow>
   nat i < length xs \<and> named p (xs ! nat i) \<and> (\<forall>j < nat i. \<not> named p (xs ! j))"
proof (induction xs arbitrary: i)
  case Nil
  then show ?case by simp
next
  case (Cons e xs)
  show ?case
  proof (cases e)
    case None
    with Cons.prems show ?thesis by simp
  next
    case (Some it)
    show ?thesis
    proof (cases "property it = p")
      case True
      with Some Cons.prems show ?thesis by (simp add: named_def)
    next
      case False
      with Some Cons.prems obtain i' where f: "findIndex p xs = Inr i'" and i: "i = i' + 1" "0 \<le> i'"
        by (auto split: sum.splits if_splits)
      from Cons.IH [OF f i(2)]
      have ih: "nat i' < length xs" "named p (xs ! nat i')" "\<forall>j < nat i'. \<not> named p (xs ! j)"
        by simp_all
      have n: "nat i = Suc (nat i')" using i by simp
      have "\<not> named p ((e # xs) ! j)" if "j < nat i" for j
        using that ih(3) False Some n by (cases j) (simp_all add: named_def)
      then show ?thesis using ih n by simp
    qed
  qed
qed

lemma findIndex_absent:
  "findIndex p xs = Inr i \<Longrightarrow> i < 0 \<Longrightarrow> \<forall>e \<in> set xs. \<not> named p e"
proof (induction xs arbitrary: i)
  case Nil
  then show ?case by simp
next
  case (Cons e xs)
  then show ?case
    by (cases e) (auto simp: named_def split: sum.splits if_splits)
qed

lemma filter_update_outside:
  "i < length xs \<Longrightarrow> \<not> Q (xs ! i) \<Longrightarrow> \<not> Q y \<Longrightarrow> filter Q (xs[i := y]) = filter Q xs"
proof (induction xs arbitrary: i)
  case Nil
  then show ?case by simp
next
  case (Cons x xs)
  then show ?case by (cases i) simp_all
qed


lemma named_new_item: "named p (Some \<lparr> property = p, item_value = v, others = [] \<rparr>)"
  by (simp add: named_def)

lemma currentArray_elements: "currentArray cp = collection_elements cp"
proof (cases cp)
  case (Lookup obj)
  then show ?thesis by (simp add: currentArray_def entry_item_def)
qed (simp_all add: currentArray_def)

lemma entries_collection_elements: "entries (collection_elements (Lookup obj)) = obj"
  by (induction obj) (auto simp: entries_def entry_of_def)

lemma filter_other_throws: "None \<in> set xs \<Longrightarrow> filter_other p xs = Inl TypeError"
proof (induction xs)
  case Nil
  then show ?case by simp
next
  case (Cons e xs)
  then show ?case by (cases e) auto
qed

lemma findIndex_throws:
  "None \<in> set (takeWhile (\<lambda>e. \<not> named p e) xs) \<Longrightarrow> findIndex p xs = Inl TypeError"
proof (induction xs)
  case Nil
  then show ?case by simp
next
  case (Cons e xs)
  then show ?case by (cases e) (auto simp: named_def split: if_splits)
qed

lemma findIndex_returns:
  "None \<notin> set (takeWhile (\<lambda>e. \<not> named p e) xs) \<Longrightarrow> \<exists>i. findIndex p xs = Inr i"
proof (induction xs)
  case Nil
  then show ?case by simp
next
  case (Cons e xs)
  then show ?case by (cases e) (auto simp: named_def split: if_splits)
qed

lemma update_delete_outcome:
  "updateCustomProperty cp p None =
     (if None \<in> set (collection_elements cp) then Inl TypeError
      else Inr (ascii ''description.customProperties'',
             if filter (\<lambda>e. \<not> named p e) (collection_elements cp) \<noteq> []
             then Some (filter (\<lambda>e. \<not> named p e) (collection_elements cp)) else None))"
proof (cases "None \<in> set (collection_elements cp)")
  case True
  then show ?thesis
    by (simp add: updateCustomProperty_def Let_def currentArray_elements filter_other_throws)
next
  case False
  then show ?thesis
    by (simp add: updateCustomProperty_def Let_def currentArray_elements filter_other_total)
qed

lemma update_set_throws:
  assumes "None \<in> set (takeWhile (\<lambda>e. \<not> named p e) (collection_elements cp))"
  shows "updateCustomProperty cp p (Some x) = Inl TypeError"
  using findIndex_throws [OF assms]
  by (simp add: updateCustomProperty_def Let_def currentArray_elements)

lemma update_set_outcome:
  assumes "None \<notin> set (takeWhile (\<lambda>e. \<not> named p e) (collection_elements cp))"
  shows "\<exists>r. updateCustomProperty cp p (Some x) = Inr (ascii ''description.customProperties'', r) \<and>
     ((\<exists>i < length (collection_elements cp).
          named p (collection_elements cp ! i) \<and>
          (\<forall>j < i. \<not> named p (collection_elements cp ! j)) \<and>
          stored r = (collection_elements cp)
            [i := Some \<lparr> property = p, item_value = Some x, others = [] \<rparr>])
      \<or> ((\<forall>e \<in> set (collection_elements cp). \<not> named p e) \<and>
          stored r = collection_elements cp
            @ [Some \<lparr> property = p, item_value = Some x, others = [] \<rparr>]))"
proof -
  let ?xs = "collection_elements cp"
  let ?new = "Some \<lparr> property = p, item_value = Some x, others = [] \<rparr>"
  from findIndex_returns [OF assms] obtain i where f: "findIndex p ?xs = Inr i" ..
  show ?thesis
  proof (cases "0 \<le> i")
    case True
    have u: "updateCustomProperty cp p (Some x)
        = Inr (ascii ''description.customProperties'', Some (?xs [nat i := ?new]))"
      using f True by (simp add: updateCustomProperty_def Let_def currentArray_elements)
    from findIndex_found [OF f True] show ?thesis
      unfolding u by (auto simp: stored_def)
  next
    case False
    then have neg: "i < 0" by simp
    have u: "updateCustomProperty cp p (Some x)
        = Inr (ascii ''description.customProperties'', Some (?xs @ [?new]))"
      using f False by (simp add: updateCustomProperty_def Let_def currentArray_elements)
    from findIndex_absent [OF f neg] show ?thesis
      unfolding u by (auto simp: stored_def)
  qed
qed

lemma update_frame:
  "filter (\<lambda>e. \<not> named p e) (collection_after cp (updateCustomProperty cp p v))
     = filter (\<lambda>e. \<not> named p e) (collection_elements cp)"
proof (cases v)
  case None
  then show ?thesis
    by (simp add: update_delete_outcome collection_after_def stored_def)
next
  case (Some x)
  show ?thesis
  proof (cases "None \<in> set (takeWhile (\<lambda>e. \<not> named p e) (collection_elements cp))")
    case True
    then show ?thesis
      using Some by (simp add: update_set_throws collection_after_def)
  next
    case False
    from update_set_outcome [OF False, of x] Some show ?thesis
      by (auto simp: collection_after_def filter_update_outside named_new_item)
  qed
qed

text \<open>
  C8. For every collection (array form, object form or none), property name \<open>p\<close> and
  value \<open>v\<close>, the collection after \<open>updateCustomProperty(p, v)\<close> has every element that
  is not an entry for \<open>p\<close>, unchanged and in its original order. The call throws, without
  storing, exactly when it reads the property of a \<open>null\<close> element: anywhere in the
  collection on a delete, before the first entry for \<open>p\<close> on a set. Otherwise a delete
  (\<open>v\<close> undefined) stores exactly the elements that are not entries for \<open>p\<close>, and a set
  replaces the first entry for \<open>p\<close> where it stands, or appends the new entry at the end
  when there is none. The elements of an object-form collection are its own entries.
\<close>

theorem update_keeps_other_entries:
  "filter (\<lambda>e. \<not> named p e) (collection_after cp (updateCustomProperty cp p v))
     = filter (\<lambda>e. \<not> named p e) (collection_elements cp) \<and>
   (updateCustomProperty cp p v = Inl TypeError \<longleftrightarrow>
      (if v = None then None \<in> set (collection_elements cp)
       else None \<in> set (takeWhile (\<lambda>e. \<not> named p e) (collection_elements cp)))) \<and>
   (updateCustomProperty cp p v \<noteq> Inl TypeError \<longrightarrow>
      (\<exists>r. updateCustomProperty cp p v = Inr (ascii ''description.customProperties'', r) \<and>
         (v = None \<longrightarrow> stored r = filter (\<lambda>e. \<not> named p e) (collection_elements cp)) \<and>
         (v \<noteq> None \<longrightarrow>
            (\<exists>i < length (collection_elements cp).
               named p (collection_elements cp ! i) \<and>
               (\<forall>j < i. \<not> named p (collection_elements cp ! j)) \<and>
               stored r = (collection_elements cp)
                 [i := Some \<lparr> property = p, item_value = v, others = [] \<rparr>])
            \<or> ((\<forall>e \<in> set (collection_elements cp). \<not> named p e) \<and>
               stored r = collection_elements cp
                 @ [Some \<lparr> property = p, item_value = v, others = [] \<rparr>])))) \<and>
   entries (collection_elements (Lookup obj)) = obj"
proof (intro conjI)
  show "filter (\<lambda>e. \<not> named p e) (collection_after cp (updateCustomProperty cp p v))
     = filter (\<lambda>e. \<not> named p e) (collection_elements cp)"
    by (rule update_frame)
next
  show "updateCustomProperty cp p v = Inl TypeError \<longleftrightarrow>
      (if v = None then None \<in> set (collection_elements cp)
       else None \<in> set (takeWhile (\<lambda>e. \<not> named p e) (collection_elements cp)))"
  proof (cases v)
    case None
    then show ?thesis by (simp add: update_delete_outcome)
  next
    case (Some x)
    show ?thesis
    proof (cases "None \<in> set (takeWhile (\<lambda>e. \<not> named p e) (collection_elements cp))")
      case True
      with Some show ?thesis by (simp add: update_set_throws)
    next
      case False
      from update_set_outcome [OF False, of x] Some False show ?thesis by auto
    qed
  qed
next
  show "updateCustomProperty cp p v \<noteq> Inl TypeError \<longrightarrow>
      (\<exists>r. updateCustomProperty cp p v = Inr (ascii ''description.customProperties'', r) \<and>
         (v = None \<longrightarrow> stored r = filter (\<lambda>e. \<not> named p e) (collection_elements cp)) \<and>
         (v \<noteq> None \<longrightarrow>
            (\<exists>i < length (collection_elements cp).
               named p (collection_elements cp ! i) \<and>
               (\<forall>j < i. \<not> named p (collection_elements cp ! j)) \<and>
               stored r = (collection_elements cp)
                 [i := Some \<lparr> property = p, item_value = v, others = [] \<rparr>])
            \<or> ((\<forall>e \<in> set (collection_elements cp). \<not> named p e) \<and>
               stored r = collection_elements cp
                 @ [Some \<lparr> property = p, item_value = v, others = [] \<rparr>])))"
  proof (cases v)
    case None
    then show ?thesis by (simp add: update_delete_outcome stored_def)
  next
    case (Some x)
    show ?thesis
    proof (cases "None \<in> set (takeWhile (\<lambda>e. \<not> named p e) (collection_elements cp))")
      case True
      with Some show ?thesis by (simp add: update_set_throws)
    next
      case False
      from update_set_outcome [OF False, of x] Some show ?thesis by simp
    qed
  qed
next
  show "entries (collection_elements (Lookup obj)) = obj"
    by (rule entries_collection_elements)
qed

theorem update_keeps_other_entries_witness:
  "updateCustomProperty
     (Lookup [(ascii ''owner'', Some (String (ascii ''me''))), (ascii ''tier'', Some (Number (Fin 2)))])
     (Some (ascii ''tier'')) (Some (Number (Fin 3)))
   = Inr (ascii ''description.customProperties'',
       Some [Some \<lparr> property = Some (ascii ''owner''), item_value = Some (String (ascii ''me'')),
                    others = [] \<rparr>,
             Some \<lparr> property = Some (ascii ''tier''), item_value = Some (Number (Fin 3)),
                    others = [] \<rparr>]) \<and>
   updateCustomProperty
     (Lookup [(ascii ''owner'', Some (String (ascii ''me''))), (ascii ''tier'', Some (Number (Fin 2)))])
     (Some (ascii ''tier'')) None
   = Inr (ascii ''description.customProperties'',
       Some [Some \<lparr> property = Some (ascii ''owner''), item_value = Some (String (ascii ''me'')),
                    others = [] \<rparr>]) \<and>
   updateCustomProperty
     (Items [Some \<lparr> property = Some (ascii ''a''), item_value = Some (Number (Fin 1)), others = [] \<rparr>,
             Some \<lparr> property = Some (ascii ''b''), item_value = Some (Number (Fin 2)),
                    others = [(ascii ''description'', String (ascii ''kept''))] \<rparr>,
             Some \<lparr> property = Some (ascii ''a''), item_value = Some (Number (Fin 3)), others = [] \<rparr>])
     (Some (ascii ''a'')) (Some (Number (Fin 9)))
   = Inr (ascii ''description.customProperties'',
       Some [Some \<lparr> property = Some (ascii ''a''), item_value = Some (Number (Fin 9)), others = [] \<rparr>,
             Some \<lparr> property = Some (ascii ''b''), item_value = Some (Number (Fin 2)),
                    others = [(ascii ''description'', String (ascii ''kept''))] \<rparr>,
             Some \<lparr> property = Some (ascii ''a''), item_value = Some (Number (Fin 3)), others = [] \<rparr>]) \<and>
   updateCustomProperty
     (Items [None,
             Some \<lparr> property = Some (ascii ''a''), item_value = Some (Number (Fin 1)), others = [] \<rparr>])
     (Some (ascii ''a'')) (Some (Number (Fin 9)))
   = Inl TypeError"
  using update_keeps_other_entries [of "Some (ascii ''tier'')"
     "Lookup [(ascii ''owner'', Some (String (ascii ''me''))), (ascii ''tier'', Some (Number (Fin 2)))]"
     "Some (Number (Fin 3))"]
  by (simp add: updateCustomProperty_def currentArray_def entry_item_def ascii_def)

text \<open>
  C9. A delete that leaves no element (every element of the current array is an entry
  for \<open>p\<close>, the empty array included) hands \<open>undefined\<close> to
  \<open>setYamlValue('description.customProperties', _)\<close>, and no delete ever hands it an
  empty array.
\<close>

theorem delete_last_entry_stores_undefined:
  "(filter_other p (currentArray cp) = Inr [] \<longrightarrow>
      updateCustomProperty cp p None = Inr (ascii ''description.customProperties'', None)) \<and>
   ((\<forall>e \<in> set (currentArray cp). named p e) \<longrightarrow>
      updateCustomProperty cp p None = Inr (ascii ''description.customProperties'', None)) \<and>
   updateCustomProperty cp p None \<noteq> Inr (ascii ''description.customProperties'', Some [])"
proof (intro conjI impI)
  assume "filter_other p (currentArray cp) = Inr []"
  then show "updateCustomProperty cp p None = Inr (ascii ''description.customProperties'', None)"
    by (simp add: updateCustomProperty_def Let_def)
next
  assume a: "\<forall>e \<in> set (currentArray cp). named p e"
  then have "None \<notin> set (currentArray cp)" by (auto simp: named_def)
  then have "filter_other p (currentArray cp) = Inr (filter (\<lambda>e. \<not> named p e) (currentArray cp))"
    by (rule filter_other_total)
  moreover have "filter (\<lambda>e. \<not> named p e) (currentArray cp) = []" using a by simp
  ultimately show "updateCustomProperty cp p None = Inr (ascii ''description.customProperties'', None)"
    by (simp add: updateCustomProperty_def Let_def)
next
  show "updateCustomProperty cp p None \<noteq> Inr (ascii ''description.customProperties'', Some [])"
    by (auto simp: updateCustomProperty_def Let_def split: sum.splits)
qed


theorem delete_last_entry_stores_undefined_witness:
  "updateCustomProperty
     (Lookup [(ascii ''owner'', Some (String (ascii ''me'')))]) (Some (ascii ''owner'')) None
   = Inr (ascii ''description.customProperties'', None)"
  using delete_last_entry_stores_undefined [of "Some (ascii ''owner'')"
     "Lookup [(ascii ''owner'', Some (String (ascii ''me'')))]"]
  by (simp add: updateCustomProperty_def currentArray_def entry_item_def ascii_def)

subsection \<open>Property creation and assignment\<close>

lemma key_rank_le: "key_rank k \<le> 4294967295"
  by (simp add: key_rank_def array_index_def)

lemma key_rank_not_index: "array_index k = None \<Longrightarrow> key_rank k = 4294967295"
  by (simp add: key_rank_def)

lemma own_keys_simps:
  "own_keys [] = []" "own_keys ((k, v) # obj) = k # own_keys obj"
  "own_keys (obj @ obj') = own_keys obj @ own_keys obj'"
  by (simp_all add: own_keys_def)

lemma set_create_property: "set (create_property k v obj) = insert (k, v) (set obj)"
  by (induction obj) (auto split: if_splits)

lemma keys_create_property:
  "set (own_keys (create_property k v obj)) = insert k (set (own_keys obj))"
  by (simp add: own_keys_def set_create_property)

lemma distinct_create_property:
  "k \<notin> set (own_keys obj) \<Longrightarrow> distinct (own_keys obj) \<Longrightarrow>
   distinct (own_keys (create_property k v obj))"
proof (induction obj)
  case Nil
  then show ?case by (simp add: own_keys_def)
next
  case (Cons e obj)
  obtain k' v' where e: "e = (k', v')" by (cases e)
  from Cons e have "k' \<notin> set (own_keys (create_property k v obj))"
    by (auto simp: keys_create_property own_keys_simps)
  with Cons e show ?case by (auto simp: own_keys_simps)
qed

lemma sorted_create_property:
  "sorted (map key_rank (own_keys obj)) \<Longrightarrow>
   sorted (map key_rank (own_keys (create_property k v obj)))"
proof (induction obj)
  case Nil
  then show ?case by (simp add: own_keys_def)
next
  case (Cons e obj)
  obtain k' v' where e: "e = (k', v')" by (cases e)
  show ?case
  proof (cases "key_rank k' \<le> key_rank k")
    case True
    from Cons.prems e have s: "sorted (map key_rank (own_keys obj))"
      and le: "\<forall>x \<in> set (own_keys obj). key_rank k' \<le> key_rank x"
      by (auto simp: own_keys_simps)
    from le True have "\<forall>x \<in> set (own_keys (create_property k v obj)). key_rank k' \<le> key_rank x"
      by (simp add: keys_create_property)
    with Cons.IH [OF s] e True show ?thesis
      by (simp add: own_keys_simps)
  next
    case False
    with Cons.prems e show ?thesis
      by (auto simp: own_keys_simps)
  qed
qed

lemma map_of_create_property:
  "k \<notin> set (own_keys obj) \<Longrightarrow> map_of (create_property k v obj) = (map_of obj)(k \<mapsto> v)"
proof (induction obj)
  case Nil
  then show ?case by simp
next
  case (Cons e obj)
  obtain k' v' where e: "e = (k', v')" by (cases e)
  with Cons show ?case
    by (auto simp: own_keys_simps fun_upd_twist)
qed

lemma create_property_last:
  "\<forall>x \<in> set (own_keys obj). key_rank x \<le> key_rank k \<Longrightarrow>
   create_property k v obj = obj @ [(k, v)]"
  by (induction obj) (auto simp: own_keys_def)

lemma keys_overwrite:
  "own_keys (map (\<lambda>(k', v'). if k' = k then (k', v) else (k', v')) obj) = own_keys obj"
  by (induction obj) (auto simp: own_keys_def)

lemma map_of_overwrite:
  "k \<in> set (own_keys obj) \<Longrightarrow>
   map_of (map (\<lambda>(k', v'). if k' = k then (k', v) else (k', v')) obj) = (map_of obj)(k \<mapsto> v)"
proof (induction obj)
  case Nil
  then show ?case by (simp add: own_keys_def)
next
  case (Cons e obj)
  obtain k' v' where e: "e = (k', v')" by (cases e)
  show ?case
  proof (cases "k \<in> set (own_keys obj)")
    case True
    with Cons.IH e show ?thesis by (auto simp: own_keys_def)
  next
    case False
    then have "map (\<lambda>(k', v'). if k' = k then (k', v) else (k', v')) obj = obj"
      by (induction obj) (auto simp: own_keys_def)
    with Cons.prems False e show ?thesis by (auto simp: own_keys_def)
  qed
qed

lemma map_of_assign: "k \<noteq> proto_key \<Longrightarrow> map_of (assign k v obj) = (map_of obj)(k \<mapsto> v)"
  by (simp add: assign_def map_of_overwrite map_of_create_property)

lemma ordinary_assign: "ordinary obj \<Longrightarrow> ordinary (assign k v obj)"
  by (simp add: assign_def ordinary_def keys_overwrite distinct_create_property
      sorted_create_property)


subsection \<open>The reduction to a lookup\<close>

lemma entries_simps:
  "entries [] = []" "entries (e # xs) = entry_of e @ entries xs"
  by (simp_all add: entries_def)

lemma reducer_unnamed: "entry_of e = [] \<Longrightarrow> reducer acc e = acc"
  by (auto simp: reducer_def entry_of_def split: option.splits)

lemma reducer_named: "entry_of e = [(k, v)] \<Longrightarrow> reducer acc e = assign k v acc"
  by (auto simp: reducer_def entry_of_def split: option.splits)

lemma entry_of_cases:
  obtains "entry_of e = []" | k v where "entry_of e = [(k, v)]"
proof (cases e)
  case None
  then have "entry_of e = []" by (simp add: entry_of_def)
  then show ?thesis by (rule that(1))
next
  case (Some it)
  show ?thesis
  proof (cases "property it")
    case None
    with Some have "entry_of e = []" by (simp add: entry_of_def)
    then show ?thesis by (rule that(1))
  next
    case (Some k)
    with \<open>e = Some it\<close> have "entry_of e = [(k, item_value it)]" by (simp add: entry_of_def)
    then show ?thesis by (rule that(2))
  qed
qed

lemma ordinary_reducer: "ordinary acc \<Longrightarrow> ordinary (reducer acc e)"
  by (cases e rule: entry_of_cases) (simp_all add: reducer_unnamed reducer_named ordinary_assign)

lemma ordinary_foldl_reducer: "ordinary acc \<Longrightarrow> ordinary (foldl reducer acc xs)"
  by (induction xs arbitrary: acc) (simp_all add: ordinary_reducer)

lemma map_of_reducer:
  "proto_key \<notin> fst ` set (entry_of e) \<Longrightarrow>
   map_of (reducer acc e) = map_of acc ++ map_of (entry_of e)"
  by (cases e rule: entry_of_cases) (simp_all add: reducer_unnamed reducer_named map_of_assign)

lemma map_of_foldl_reducer:
  "proto_key \<notin> fst ` set (entries xs) \<Longrightarrow>
   map_of (foldl reducer acc xs) = map_of acc ++ map_of (rev (entries xs))"
proof (induction xs arbitrary: acc)
  case Nil
  then show ?case by (simp add: entries_simps)
next
  case (Cons e xs)
  from Cons.prems have a: "proto_key \<notin> fst ` set (entry_of e)"
    and b: "proto_key \<notin> fst ` set (entries xs)"
    by (auto simp: entries_simps)
  have "map_of (foldl reducer acc (e # xs)) = map_of (reducer acc e) ++ map_of (rev (entries xs))"
    using Cons.IH [OF b] by simp
  also have "\<dots> = (map_of acc ++ map_of (entry_of e)) ++ map_of (rev (entries xs))"
    by (simp only: map_of_reducer [OF a])
  also have "\<dots> = map_of acc ++ map_of (rev (entries (e # xs)))"
  proof (cases e rule: entry_of_cases)
    case 1
    then show ?thesis by (simp add: entries_simps)
  next
    case (2 k v)
    then show ?thesis by (simp add: entries_simps)
  qed
  finally show ?case .
qed

lemma ordinary_empty: "ordinary []"
  by (simp add: ordinary_def own_keys_def)

lemma foldl_reducer_plain_names:
  "proto_key \<notin> fst ` set (entries xs) \<Longrightarrow>
   \<forall>k \<in> fst ` set (entries xs). array_index k = None \<Longrightarrow>
   distinct (own_keys acc @ map fst (entries xs)) \<Longrightarrow>
   foldl reducer acc xs = acc @ entries xs"
proof (induction xs arbitrary: acc)
  case Nil
  then show ?case by (simp add: entries_simps)
next
  case (Cons e xs)
  show ?case
  proof (cases e rule: entry_of_cases)
    case 1
    with Cons show ?thesis by (simp add: entries_simps reducer_unnamed)
  next
    case (2 k v)
    from Cons.prems 2 have k: "k \<noteq> proto_key" "array_index k = None" "k \<notin> set (own_keys acc)"
      by (auto simp: entries_simps)
    have "\<forall>x \<in> set (own_keys acc). key_rank x \<le> key_rank k"
      using k(2) by (simp add: key_rank_not_index key_rank_le)
    then have c: "create_property k v acc = acc @ [(k, v)]"
      by (rule create_property_last)
    have r: "reducer acc e = acc @ [(k, v)]"
      using 2 k c by (simp add: reducer_named assign_def)
    have "foldl reducer (acc @ [(k, v)]) xs = (acc @ [(k, v)]) @ entries xs"
      using Cons.prems 2 by (intro Cons.IH) (auto simp: entries_simps own_keys_simps)
    with r 2 show ?thesis by (simp add: entries_simps)
  qed
qed

lemma entry_of_entry_item: "entry_of (entry_item e) = [e]"
  by (cases e) (simp add: entry_of_def entry_item_def)

lemma entries_entry_items: "entries (map entry_item obj) = obj"
  by (induction obj) (simp_all add: entries_simps entry_of_entry_item)

lemma foldl_reducer_entries:
  "ordinary (acc @ obj) \<Longrightarrow> proto_key \<notin> set (own_keys obj) \<Longrightarrow>
   foldl reducer acc (map entry_item obj) = acc @ obj"
proof (induction obj arbitrary: acc)
  case Nil
  then show ?case by simp
next
  case (Cons e obj)
  obtain k v where e: "e = (k, v)" by (cases e)
  from Cons.prems e have k: "k \<noteq> proto_key" "k \<notin> set (own_keys acc)"
    and s: "sorted (map key_rank (own_keys acc @ k # own_keys obj))"
    by (auto simp: ordinary_def own_keys_simps)
  from s have "\<forall>x \<in> set (own_keys acc). key_rank x \<le> key_rank k"
    by (auto simp: sorted_append)
  then have c: "create_property k v acc = acc @ [(k, v)]"
    by (rule create_property_last)
  have r: "reducer acc (entry_item e) = acc @ [(k, v)]"
    using e k c by (simp add: reducer_named [OF entry_of_entry_item] assign_def)
  have "foldl reducer (acc @ [(k, v)]) (map entry_item obj) = (acc @ [(k, v)]) @ obj"
    using Cons.prems e by (intro Cons.IH) (simp_all add: own_keys_simps)
  with r e show ?case by simp
qed


lemma lookup_of_items:
  assumes "proto_key \<notin> fst ` set (entries xs)"
  shows "ordinary (foldl reducer [] xs)"
    and "map_of (foldl reducer [] xs) = map_of (rev (entries xs))"
    and "distinct (map fst (entries xs)) \<Longrightarrow> set (foldl reducer [] xs) = set (entries xs)"
proof -
  show o: "ordinary (foldl reducer [] xs)"
    by (rule ordinary_foldl_reducer) (rule ordinary_empty)
  show m: "map_of (foldl reducer [] xs) = map_of (rev (entries xs))"
    using map_of_foldl_reducer [OF assms, of "[]"] by simp
  assume d: "distinct (map fst (entries xs))"
  then have "distinct (map fst (rev (entries xs)))" by (simp add: rev_map [symmetric])
  moreover from o have "distinct (map fst (foldl reducer [] xs))"
    by (simp add: ordinary_def own_keys_def)
  ultimately have "set (foldl reducer [] xs) = set (rev (entries xs))"
    using m by (simp add: map_of_inject_set)
  then show "set (foldl reducer [] xs) = set (entries xs)" by simp
qed

lemmas collection_defs = customPropertiesLookup_def currentArray_def reducer_def assign_def
  own_keys_def proto_key_def ascii_def entries_def entry_of_def entry_item_def
  key_rank_def array_index_def decimal_value_def digit_value_def is_digit_def ordinary_def

text \<open>
  C5, as amended. For an array of items none of which is named \<open>__proto__\<close>,
  \<open>customPropertiesLookup\<close> gives the object in which each property name maps to the
  value of the last item that carries it; elements that are \<open>null\<close> or lack a property
  name are skipped. When the names are distinct, the object's entries are exactly the
  array's: each item's property name maps to its value. An input that is already an
  object comes back as it is, and an absent one (\<open>undefined\<close>, \<open>null\<close>) gives the empty
  object.
\<close>

theorem lookup_maps_names_to_last_values:
  "(proto_key \<notin> fst ` set (entries xs) \<longrightarrow>
      (\<exists>obj. customPropertiesLookup (Items xs) = Lookup obj \<and> ordinary obj \<and>
         map_of obj = map_of (rev (entries xs)) \<and>
         (distinct (map fst (entries xs)) \<longrightarrow> set obj = set (entries xs)))) \<and>
   customPropertiesLookup (Lookup obj') = Lookup obj' \<and>
   customPropertiesLookup (Scalar Undefined) = Lookup [] \<and>
   customPropertiesLookup (Scalar Null) = Lookup []"
  by (simp add: customPropertiesLookup_def lookup_of_items)

theorem lookup_maps_names_to_last_values_witness:
  "customPropertiesLookup
     (Items [Some \<lparr> property = Some (ascii ''owner''), item_value = Some (String (ascii ''me'')), others = [] \<rparr>,
             None,
             Some \<lparr> property = None, item_value = Some (Number (Fin 7)), others = [] \<rparr>,
             Some \<lparr> property = Some (ascii ''tier''), item_value = Some (Number (Fin 2)), others = [] \<rparr>])
   = Lookup [(ascii ''owner'', Some (String (ascii ''me''))), (ascii ''tier'', Some (Number (Fin 2)))]"
  using lookup_maps_names_to_last_values [of
     "[Some \<lparr> property = Some (ascii ''owner''), item_value = Some (String (ascii ''me'')), others = [] \<rparr>,
       None,
       Some \<lparr> property = None, item_value = Some (Number (Fin 7)), others = [] \<rparr>,
       Some \<lparr> property = Some (ascii ''tier''), item_value = Some (Number (Fin 2)), others = [] \<rparr>]"]
  by (simp add: collection_defs)

text \<open>
  Two items of one name: the name maps to the second item's value, not to the first's.
  An item named \<open>__proto__\<close> leaves no entry.
\<close>

theorem duplicate_name_lookup_counterexample:
  "customPropertiesLookup
     (Items [Some \<lparr> property = Some (ascii ''a''), item_value = Some (Number (Fin 1)), others = [] \<rparr>,
             Some \<lparr> property = Some (ascii ''a''), item_value = Some (Number (Fin 2)), others = [] \<rparr>])
   = Lookup [(ascii ''a'', Some (Number (Fin 2)))] \<and>
   item_value \<lparr> property = Some (ascii ''a''), item_value = Some (Number (Fin 1)), others = [] \<rparr>
     \<noteq> Some (Number (Fin 2)) \<and>
   customPropertiesLookup
     (Items [Some \<lparr> property = Some (ascii ''__proto__''), item_value = Some (Number (Fin 1)),
                    others = [] \<rparr>])
   = Lookup []"
  by (simp add: collection_defs)

text \<open>
  C1, as amended. For an array whose items have distinct property names, none of them
  \<open>__proto__\<close>, converting to a lookup with \<open>customPropertiesLookup\<close> and back to an
  array (the normalisation of \<open>updateCustomProperty\<close>) gives the same property/value
  entries, and in the same order when no name is an array index. For an object with no
  own key \<open>__proto__\<close>, converting to an array and back gives the same object.
\<close>

theorem representations_round_trip:
  assumes "distinct (map fst (entries xs))" and "proto_key \<notin> fst ` set (entries xs)"
    and "ordinary obj" and "proto_key \<notin> set (own_keys obj)"
  shows "set (entries (currentArray (customPropertiesLookup (Items xs)))) = set (entries xs) \<and>
    ((\<forall>k \<in> fst ` set (entries xs). array_index k = None) \<longrightarrow>
       entries (currentArray (customPropertiesLookup (Items xs))) = entries xs) \<and>
    customPropertiesLookup (Items (currentArray (Lookup obj))) = Lookup obj"
proof (intro conjI impI)
  show "set (entries (currentArray (customPropertiesLookup (Items xs)))) = set (entries xs)"
    using lookup_of_items(3) [OF assms(2) assms(1)]
    by (simp add: customPropertiesLookup_def currentArray_def entries_entry_items)
next
  assume "\<forall>k \<in> fst ` set (entries xs). array_index k = None"
  with assms(1,2) have "foldl reducer [] xs = [] @ entries xs"
    by (intro foldl_reducer_plain_names) (simp_all add: own_keys_def)
  then show "entries (currentArray (customPropertiesLookup (Items xs))) = entries xs"
    by (simp add: customPropertiesLookup_def currentArray_def entries_entry_items)
next
  have "foldl reducer [] (map entry_item obj) = [] @ obj"
    using assms(3,4) by (intro foldl_reducer_entries) simp_all
  then show "customPropertiesLookup (Items (currentArray (Lookup obj))) = Lookup obj"
    by (simp add: customPropertiesLookup_def currentArray_def)
qed

theorem representations_round_trip_witness:
  "entries (currentArray (customPropertiesLookup
     (Items [Some \<lparr> property = Some (ascii ''b''), item_value = Some (Number (Fin 1)), others = [] \<rparr>,
             Some \<lparr> property = Some (ascii ''10''), item_value = Some (Number (Fin 2)), others = [] \<rparr>,
             Some \<lparr> property = Some (ascii ''2''), item_value = Some (Number (Fin 3)), others = [] \<rparr>])))
   = [(ascii ''2'', Some (Number (Fin 3))), (ascii ''10'', Some (Number (Fin 2))),
      (ascii ''b'', Some (Number (Fin 1)))] \<and>
   customPropertiesLookup (Items (currentArray
     (Lookup [(ascii ''2'', Some (Number (Fin 3))), (ascii ''b'', Some (Number (Fin 1)))])))
   = Lookup [(ascii ''2'', Some (Number (Fin 3))), (ascii ''b'', Some (Number (Fin 1)))]"
  using representations_round_trip [of
     "[Some \<lparr> property = Some (ascii ''b''), item_value = Some (Number (Fin 1)), others = [] \<rparr>,
       Some \<lparr> property = Some (ascii ''10''), item_value = Some (Number (Fin 2)), others = [] \<rparr>,
       Some \<lparr> property = Some (ascii ''2''), item_value = Some (Number (Fin 3)), others = [] \<rparr>]"
     "[(ascii ''2'', Some (Number (Fin 3))), (ascii ''b'', Some (Number (Fin 1)))]"]
  by (simp add: collection_defs)

text \<open>
  Two items of one name: the first item's entry is lost on the way through the lookup.
  An item named \<open>__proto__\<close> is lost too, and an object with an own key
  \<open>__proto__\<close> comes back empty.
\<close>

theorem duplicate_name_round_trip_counterexample:
  "(ascii ''a'', Some (Number (Fin 1))) \<in> set (entries
     [Some \<lparr> property = Some (ascii ''a''), item_value = Some (Number (Fin 1)), others = [] \<rparr>,
      Some \<lparr> property = Some (ascii ''a''), item_value = Some (Number (Fin 2)), others = [] \<rparr>]) \<and>
   entries (currentArray (customPropertiesLookup
     (Items [Some \<lparr> property = Some (ascii ''a''), item_value = Some (Number (Fin 1)), others = [] \<rparr>,
             Some \<lparr> property = Some (ascii ''a''), item_value = Some (Number (Fin 2)), others = [] \<rparr>])))
   = [(ascii ''a'', Some (Number (Fin 2)))] \<and>
   entries (currentArray (customPropertiesLookup
     (Items [Some \<lparr> property = Some (ascii ''__proto__''), item_value = Some (Number (Fin 1)),
                    others = [] \<rparr>])))
   = [] \<and>
   customPropertiesLookup (Items (currentArray
     (Lookup [(ascii ''__proto__'', Some (Number (Fin 1)))])))
   = Lookup []"
  by (simp add: collection_defs)

end
